theory Spec2Isabelle
  imports Main "HOL-Library.Word" "HOL-Library.Signed_Division"
begin

unbundle bit_operations_syntax

section \<open>Common data\<close>

text \<open>
  A \<open>char\<close> of the C++ source is one byte.  A trivially copyable value of type \<open>T\<close> is
  handled by the code only through \<open>memcpy\<close> of \<open>sizeof(T)\<close> bytes, so it is modelled by
  its object representation: a list of \<open>sizeof(T)\<close> bytes.  A \<open>std::string\<close> is the list
  of its \<open>size()\<close> bytes (it may contain the byte 0), a \<open>std::vector<T>\<close> the list of
  the object representations of its elements.
\<close>

type_synonym byte = "8 word"

text \<open>
  The ways in which the C++ code leaves its defined behaviour are values:
  an access outside an allocation, a \<open>std::vector::resize\<close> to a length that cannot
  be allocated, the dereference of a null pointer, a signed overflow, a division by
  zero, and the use of an object through a pointer cast to a type that the object does
  not have.
\<close>

datatype error = OutOfBounds | LengthError | NullDeref | Overflow | DivByZero | BadCast

section \<open>Serialization: \<open>bulk::detail::scale\<close> and \<open>bulk::detail::memory_buffer\<close>\<close>

text \<open>
  \<open>int\<close> is 32 bits wide; its object representation is taken little-endian, the byte
  order of the Epiphany cores and of their host.
\<close>

definition int_bytes :: "32 word \<Rightarrow> byte list" where
  "int_bytes w = [ucast w, ucast (drop_bit 8 w), ucast (drop_bit 16 w), ucast (drop_bit 24 w)]"

fun int_of_bytes :: "byte list \<Rightarrow> 32 word" where
  "int_of_bytes [] = 0"
| "int_of_bytes (b # bs) = ucast b OR push_bit 8 (int_of_bytes bs)"


definition scale_string :: "nat \<Rightarrow> byte list \<Rightarrow> nat \<Rightarrow> nat" where
  "scale_string w str sz = (sz + (length str + 1) * 1) mod 2 ^ w"


text \<open>
  \<open>struct memory_buffer\<close>: \<open>buffer\<close> is the \<open>char\<close> array allocated by the constructor
  (its length is the allocation size), \<open>index\<close> the cursor.  A \<open>memcpy\<close> that leaves
  the allocation is undefined behaviour and is the error \<open>OutOfBounds\<close>; since every
  defined access keeps \<open>index\<close> below the allocation size, \<open>index\<close> never wraps and is
  a natural number.
\<close>

record memory_buffer =
  buffer :: "byte list"
  index :: nat

text \<open>\<open>memcpy(buffer.get() + index, src, n)\<close> with \<open>src\<close> holding the bytes \<open>bs\<close>.\<close>

definition memcpy_in :: "byte list \<Rightarrow> nat \<Rightarrow> byte list \<Rightarrow> byte list" where
  "memcpy_in buf i bs = take i buf @ bs @ drop (i + length bs) buf"

text \<open>\<open>template <typename T> void operator<<(const T& value)\<close>\<close>

definition put_value :: "byte list \<Rightarrow> memory_buffer \<Rightarrow> error + memory_buffer" where
  "put_value v mb =
     (if index mb + length v \<le> length (buffer mb)
      then Inr (mb\<lparr>buffer := memcpy_in (buffer mb) (index mb) v,
                   index := index mb + length v\<rparr>)
      else Inl OutOfBounds)"

text \<open>\<open>template <typename T> void operator>>(T& value)\<close>, with \<open>n = sizeof(T)\<close>.\<close>

definition get_value :: "nat \<Rightarrow> memory_buffer \<Rightarrow> error + (byte list \<times> memory_buffer)" where
  "get_value n mb =
     (if index mb + n \<le> length (buffer mb)
      then Inr (take n (drop (index mb) (buffer mb)), mb\<lparr>index := index mb + n\<rparr>)
      else Inl OutOfBounds)"

text \<open>The loop \<open>for (auto x : xs) (*this) << x;\<close> over one-byte or \<open>T\<close>-sized items.\<close>

fun put_each :: "byte list list \<Rightarrow> memory_buffer \<Rightarrow> error + memory_buffer" where
  "put_each [] mb = Inr mb"
| "put_each (x # xs) mb =
     (case put_value x mb of Inl e \<Rightarrow> Inl e | Inr mb' \<Rightarrow> put_each xs mb')"

text \<open>\<open>void operator<<(std::string& str)\<close>: every character, then \<open>'\0'\<close>.\<close>

definition put_string :: "byte list \<Rightarrow> memory_buffer \<Rightarrow> error + memory_buffer" where
  "put_string str mb =
     (case put_each (map (\<lambda>c. [c]) str) mb of
        Inl e \<Rightarrow> Inl e
      | Inr mb' \<Rightarrow> put_value [0] mb')"

text \<open>
  \<open>void operator>>(std::string& str)\<close>: \<open>std::string(const char*)\<close> reads up to the
  first byte 0 at or after the cursor; when the allocation holds none, the read leaves it.
\<close>

definition get_string :: "memory_buffer \<Rightarrow> error + (byte list \<times> memory_buffer)" where
  "get_string mb =
     (let rest = drop (index mb) (buffer mb) in
      if 0 \<in> set rest
      then (let str = takeWhile (\<lambda>c. c \<noteq> 0) rest
            in Inr (str, mb\<lparr>index := index mb + (length str + 1) * 1\<rparr>))
      else Inl OutOfBounds)"

text \<open>
  \<open>template <typename T> void operator<<(std::vector<T>& xs)\<close>: the element count
  converted to \<open>int\<close>, then every element.
\<close>

definition put_vector :: "byte list list \<Rightarrow> memory_buffer \<Rightarrow> error + memory_buffer" where
  "put_vector xs mb =
     (case put_value (int_bytes (of_nat (length xs))) mb of
        Inl e \<Rightarrow> Inl e
      | Inr mb' \<Rightarrow> put_each xs mb')"

text \<open>
  \<open>template <typename T> void operator>>(std::vector<T>& xs)\<close>, with \<open>n = sizeof(T)\<close>:
  the count \<open>size\<close> (here \<open>sz\<close>) is read as an \<open>int\<close>; \<open>xs.resize(size)\<close> converts it to \<open>std::size_t\<close>, so
  a negative count asks for a length beyond \<open>max_size()\<close> and throws; then one \<open>memcpy\<close>
  of \<open>sizeof(T) * size\<close> bytes fills the \<open>size\<close> elements.
\<close>

definition chunks :: "nat \<Rightarrow> nat \<Rightarrow> byte list \<Rightarrow> byte list list" where
  "chunks n k bs = map (\<lambda>j. take n (drop (j * n) bs)) [0..<k]"

definition get_vector :: "nat \<Rightarrow> memory_buffer \<Rightarrow> error + (byte list list \<times> memory_buffer)" where
  "get_vector n mb =
     (case get_value 4 mb of
        Inl e \<Rightarrow> Inl e
      | Inr (cb, mb') \<Rightarrow>
          (let sz = sint (int_of_bytes cb) in
           if sz < 0 then Inl LengthError
           else if index mb' + n * nat sz \<le> length (buffer mb')
           then Inr (chunks n (nat sz) (drop (index mb') (buffer mb')),
                     mb'\<lparr>index := index mb' + nat sz * n\<rparr>)
           else Inl OutOfBounds))"

text \<open>
  A heterogeneous sequence of values, as the parameter pack that is folded over
  \<open>operator|\<close>: each value is a fixed-width value, a string, or a vector of elements of
  \<open>sizeof(T) = n\<close> bytes.  Overload resolution picks the operator by the static type.
\<close>

datatype val = Fixed "byte list" | Str "byte list" | Vec nat "byte list list"


fun put :: "val \<Rightarrow> memory_buffer \<Rightarrow> error + memory_buffer" where
  "put (Fixed v) mb = put_value v mb"
| "put (Str s) mb = put_string s mb"
| "put (Vec n xs) mb = put_vector xs mb"





section \<open>Message queues: \<open>bulk::queue\<close>\<close>

text \<open>
  An identifier cannot end in an underscore: a name of the source that does is written
  with a prime after it (\<open>data_\<close> is \<open>data_'\<close>).

  \<open>class queue<T, Ts...>::impl\<close>: \<open>data_\<close> is the local delivery buffer, \<open>id_\<close> the
  registration id.  The reference \<open>world_\<close> points to an object outside the queue; the
  state of the world is passed explicitly where a function uses it.
\<close>

record 'm impl =
  data_' :: "'m list"
  id_' :: int

text \<open>\<open>size_t size()\<close> and \<open>bool empty()\<close> of \<open>queue\<close> read \<open>impl_->data_\<close>.\<close>

definition size_queue :: "'m impl \<Rightarrow> nat" where
  "size_queue q = length (data_' q)"

definition empty_queue :: "'m impl \<Rightarrow> bool" where
  "empty_queue q = (data_' q = [])"

text \<open>\<open>void clear_() override { data_.clear(); }\<close>\<close>

definition clear_' :: "'m impl \<Rightarrow> 'm impl" where
  "clear_' q = q\<lparr>data_' := []\<rparr>"

text \<open>
  \<open>void unsafe_push_back(void* msg)\<close>: the pointer is \<open>None\<close> when null and \<open>Some m\<close>
  when it points to the message \<open>m\<close>.
\<close>

definition unsafe_push_back :: "'m option \<Rightarrow> 'm impl \<Rightarrow> error + 'm impl" where
  "unsafe_push_back msg q =
     (case msg of
        None \<Rightarrow> Inl NullDeref
      | Some m \<Rightarrow> Inr (q\<lparr>data_' := data_' q @ [m]\<rparr>))"

text \<open>\<open>std::vector::resize(k)\<close>: keep the first \<open>k\<close> entries, append value-initialised ones.\<close>

definition resize :: "nat \<Rightarrow> 'a \<Rightarrow> 'a list \<Rightarrow> 'a list" where
  "resize k d xs = take k xs @ replicate (k - length xs) d"

text \<open>
  \<open>void* get_buffer_(int size_in_bytes)\<close>.  \<open>sizeof_message\<close> is
  \<open>sizeof(message_type)\<close> and \<open>d\<close> the value-initialised message.  The division is
  done in \<open>std::size_t\<close>: a negative \<open>size_in_bytes\<close> is converted to a value of at least
  half the address space, which \<open>resize\<close> cannot allocate.  The result is the pointer
  \<open>&data_[0]\<close>, given as the slot of \<open>data_\<close> it designates; \<open>data_[0]\<close> on an empty
  vector is outside its range.
\<close>

datatype slot_ptr = Slot nat

definition get_buffer_' ::
  "nat \<Rightarrow> 'm \<Rightarrow> int \<Rightarrow> 'm impl \<Rightarrow> error + (slot_ptr \<times> 'm impl)" where
  "get_buffer_' sizeof_message d size_in_bytes q =
     (if size_in_bytes < 0 then Inl LengthError
      else (let q' = q\<lparr>data_' := resize (nat size_in_bytes div sizeof_message) d (data_' q)\<rparr>
            in if 0 < length (data_' q') then Inr (Slot 0, q') else Inl OutOfBounds))"

text \<open>
  The message type of a queue whose first content type is an array \<open>E[]\<close>.  The two
  casts in \<open>unsafe_push_array\<close> say what it is: the \<open>std::vector<element_type>\<close>
  itself when the queue has no further content types (\<open>sizeof...(Ts) = 0\<close>), and
  \<open>std::tuple<std::vector<element_type>, Ts...>\<close> when it has.  \<open>content\<close> is the
  vector, the list of the object representations of its elements, and \<open>rest\<close> holds the
  fields \<open>Ts...\<close>; without such fields \<open>rest\<close> is the unit value.
\<close>

record 'tl array_message =
  content :: "byte list list"
  rest :: 'tl

text \<open>
  \<open>memcpy(msg.data(), data, size * count)\<close> into the storage of a vector of \<open>count\<close>
  elements of \<open>esz = sizeof(element_type)\<close> bytes each: \<open>src\<close> are the bytes readable at
  \<open>data\<close>.  Reading past \<open>src\<close> or writing past the storage leaves an allocation.
\<close>

definition memcpy_elements ::
  "nat \<Rightarrow> byte list list \<Rightarrow> byte list \<Rightarrow> nat \<Rightarrow> error + byte list list" where
  "memcpy_elements esz elems src nbytes =
     (if nbytes \<le> length src \<and> nbytes \<le> length (concat elems)
      then Inr (chunks esz (length elems) (take nbytes src @ drop nbytes (concat elems)))
      else Inl OutOfBounds)"

text \<open>
  The \<open>msg.resize(count)\<close> and the \<open>memcpy\<close> that both branches of
  \<open>unsafe_push_array\<close> do on the vector of the new message.  \<open>count\<close> is an \<open>int\<close> of
  32 bits; \<open>resize\<close> converts it to \<open>std::size_t\<close>, so a negative count cannot be
  allocated; new elements are value-initialised (all bytes zero).  The product
  \<open>size * count\<close> is computed in \<open>std::size_t\<close>, of \<open>w\<close> bits.
\<close>

definition resize_copy ::
  "nat \<Rightarrow> nat \<Rightarrow> 32 word \<Rightarrow> nat \<Rightarrow> byte list \<Rightarrow> 'tl array_message \<Rightarrow>
   error + 'tl array_message" where
  "resize_copy w esz count sz src msg =
     (if sint count < 0 then Inl LengthError
      else (case memcpy_elements esz
                   (resize (nat (sint count)) (replicate esz 0) (content msg)) src
                   ((sz * nat (sint count)) mod 2 ^ w) of
              Inl e \<Rightarrow> Inl e
            | Inr elems \<Rightarrow> Inr (msg\<lparr>content := elems\<rparr>)))"

text \<open>
  \<open>void unsafe_push_array(int count, size_t size, void* data, size_t size_of_other,
  void* other)\<close>.  \<open>esz\<close> is \<open>sizeof(element_type)\<close>, \<open>n_ts\<close> is \<open>sizeof...(Ts)\<close>,
  \<open>d\<close> the value-initialised tail of \<open>message_type{}\<close>; \<open>other\<close> is \<open>None\<close> when null.
  The branch for \<open>size_of_other == 0\<close> casts the address of the new message to
  \<open>std::vector<element_type>*\<close>: the message is such a vector only when the queue has no
  further content types.  The other branch casts it to the tuple type \<open>real_type\<close>:
  the message is such a tuple only when the queue has further content types.
  (\<open>send_many\<close> passes \<open>size_of_other = 0\<close> exactly when \<open>sizeof...(Ts) = 0\<close>.)
\<close>

definition unsafe_push_array ::
  "nat \<Rightarrow> nat \<Rightarrow> nat \<Rightarrow> 'tl \<Rightarrow> 32 word \<Rightarrow> nat \<Rightarrow> byte list \<Rightarrow> nat \<Rightarrow>
   'tl array_message option \<Rightarrow> 'tl array_message impl \<Rightarrow> error + 'tl array_message impl" where
  "unsafe_push_array w esz n_ts d count sz data size_of_other other q =
     (if size_of_other = 0
      then (if n_ts = 0
            then (case resize_copy w esz count sz data \<lparr>content = [], rest = d\<rparr> of
                    Inl e \<Rightarrow> Inl e
                  | Inr msg \<Rightarrow> Inr (q\<lparr>data_' := data_' q @ [msg]\<rparr>))
            else Inl BadCast)
      else (case other of
              None \<Rightarrow> Inl NullDeref
            | Some m \<Rightarrow>
                (if n_ts = 0 then Inl BadCast
                 else (case resize_copy w esz count sz data m of
                         Inl e \<Rightarrow> Inl e
                       | Inr msg \<Rightarrow> Inr (q\<lparr>data_' := data_' q @ [msg]\<rparr>)))))"

text \<open>
  \<open>class queue::sender\<close>: \<open>q_\<close> is the queue the sender belongs to, \<open>t_\<close> the target
  processor.  \<open>bulk::world\<close> is declared outside these sources: its virtual
  \<open>send_(t, id, data, size)\<close> is the parameter \<open>world_send_\<close>, a transformer of the
  state \<open>'w\<close> of the world, and \<open>sizeof_message\<close> is \<open>sizeof(message_type)\<close>.
\<close>

record 'm sender =
  q_' :: "'m impl"
  t_' :: int

text \<open>\<open>void impl::send_(int t, message_type m)\<close>\<close>

definition send_' ::
  "(int \<Rightarrow> int \<Rightarrow> 'm \<Rightarrow> nat \<Rightarrow> 'w \<Rightarrow> 'w) \<Rightarrow> nat \<Rightarrow> 'm impl \<Rightarrow> int \<Rightarrow> 'm \<Rightarrow> 'w \<Rightarrow> 'w" where
  "send_' world_send_' sizeof_message q t m w = world_send_' t (id_' q) m sizeof_message w"

text \<open>\<open>template <typename... Us> void send(Us... args)\<close>, with \<open>msg = {args...}\<close>.\<close>

definition send ::
  "(int \<Rightarrow> int \<Rightarrow> 'm \<Rightarrow> nat \<Rightarrow> 'w \<Rightarrow> 'w) \<Rightarrow> nat \<Rightarrow> 'm sender \<Rightarrow> 'm \<Rightarrow> 'w \<Rightarrow> 'w" where
  "send world_send_' sizeof_message s msg w =
     send_' world_send_' sizeof_message (q_' s) (t_' s) msg w"

text \<open>\<open>void send(std::vector<message_type> msgs)\<close>: the loop over \<open>msgs\<close>.\<close>

fun send_msgs ::
  "(int \<Rightarrow> int \<Rightarrow> 'm \<Rightarrow> nat \<Rightarrow> 'w \<Rightarrow> 'w) \<Rightarrow> nat \<Rightarrow> 'm sender \<Rightarrow> 'm list \<Rightarrow> 'w \<Rightarrow> 'w" where
  "send_msgs world_send_' sizeof_message s [] w = w"
| "send_msgs world_send_' sizeof_message s (msg # msgs) w =
     send_msgs world_send_' sizeof_message s msgs
       (send_' world_send_' sizeof_message (q_' s) (t_' s) msg w)"

text \<open>
  A world that only records the calls of \<open>send_\<close> it receives, in order: destination,
  queue id, message and size.
\<close>

definition record_send ::
  "int \<Rightarrow> int \<Rightarrow> 'm \<Rightarrow> nat \<Rightarrow> (int \<times> int \<times> 'm \<times> nat) list \<Rightarrow> (int \<times> int \<times> 'm \<times> nat) list" where
  "record_send t i m n calls = calls @ [(t, i, m, n)]"

section \<open>Streams of the Epiphany backend: \<open>bulk::epiphany::stream\<close>\<close>

text \<open>
  The code runs on the Epiphany cores: pointers, \<open>unsigned\<close>, \<open>size_t\<close> and \<open>int\<close> are
  32 bits wide, and the code itself does its address arithmetic on pointers cast to
  \<open>unsigned\<close>.  \<open>dma_task::push(dst, src, nbytes, engine)\<close> hands one transfer to a DMA
  engine; the field \<open>dma\<close> is the list of the transfers pushed so far.  The fields
  \<open>buffer\<close> and \<open>size\<close> of the class are \<open>buffer_stream\<close> and \<open>size_stream\<close> here.
\<close>

record dma_transfer =
  dst :: "32 word"
  src :: "32 word"
  nbytes :: "32 word"
  engine :: int




section \<open>Cyclic partitioning: \<open>bulk::cyclic_partitioning\<close>\<close>

text \<open>
  \<open>index_type<D>\<close> is an array of \<open>D\<close> values of type \<open>int\<close>, here a list.  \<open>int\<close> is
  32 bits wide: an addition or subtraction whose result leaves its range is undefined,
  and so is a division by zero; \<open>/\<close> and \<open>%\<close> truncate towards zero.  An array
  access outside the array is the error \<open>OutOfBounds\<close>.
\<close>

definition INT_MIN :: int where
  "INT_MIN = - 2147483648"

definition INT_MAX :: int where
  "INT_MAX = 2147483647"

definition in_int :: "int \<Rightarrow> bool" where
  "in_int v = (INT_MIN \<le> v \<and> v \<le> INT_MAX)"

definition c_add :: "int \<Rightarrow> int \<Rightarrow> error + int" where
  "c_add a b = (if in_int (a + b) then Inr (a + b) else Inl Overflow)"

definition c_sub :: "int \<Rightarrow> int \<Rightarrow> error + int" where
  "c_sub a b = (if in_int (a - b) then Inr (a - b) else Inl Overflow)"

definition c_div :: "int \<Rightarrow> int \<Rightarrow> error + int" where
  "c_div a b =
     (if b = 0 then Inl DivByZero
      else if a = INT_MIN \<and> b = - 1 then Inl Overflow
      else Inr (a sdiv b))"

definition c_mod :: "int \<Rightarrow> int \<Rightarrow> error + int" where
  "c_mod a b =
     (if b = 0 then Inl DivByZero
      else if a = INT_MIN \<and> b = - 1 then Inl Overflow
      else Inr (a smod b))"

definition then_do :: "error + 'a \<Rightarrow> ('a \<Rightarrow> error + 'b) \<Rightarrow> error + 'b" where
  "then_do r f = (case r of Inl e \<Rightarrow> Inl e | Inr x \<Rightarrow> f x)"

definition at :: "int list \<Rightarrow> nat \<Rightarrow> error + int" where
  "at xs d = (if d < length xs then Inr (xs ! d) else Inl OutOfBounds)"

definition set_at :: "int list \<Rightarrow> nat \<Rightarrow> int \<Rightarrow> error + int list" where
  "set_at xs d v = (if d < length xs then Inr (xs[d := v]) else Inl OutOfBounds)"

text \<open>The loop \<open>for (int d = a; d < b; ++d)\<close> runs its body for the values of \<open>[a..<b]\<close>.\<close>

fun for_dims :: "nat list \<Rightarrow> (nat \<Rightarrow> int list \<Rightarrow> error + int list) \<Rightarrow> int list \<Rightarrow> error + int list" where
  "for_dims [] body s = Inr s"
| "for_dims (d # ds) body s = then_do (body d s) (for_dims ds body)"

text \<open>
  The template parameters \<open>D\<close> and \<open>G\<close> and the members \<open>global_size_\<close> and
  \<open>grid_size_\<close>, which the class inherits from \<open>multi_partitioning<D, G>\<close>.
\<close>

record cyclic_partitioning =
  D :: nat
  G :: nat
  global_size_' :: "int list"
  grid_size_' :: "int list"

text \<open>\<open>index_type<D> global_to_local(index_type<D> index)\<close>; the parameter is \<open>idx\<close> here.\<close>

definition global_to_local :: "cyclic_partitioning \<Rightarrow> int list \<Rightarrow> error + int list" where
  "global_to_local p idx =
     for_dims [0..<G p]
       (\<lambda>d idx.
          then_do (at idx d) (\<lambda>x.
          then_do (at (grid_size_' p) d) (\<lambda>g.
          then_do (c_div x g) (\<lambda>q. set_at idx d q))))
       idx"

text \<open>
  \<open>index_type<D> local_size(index_type<G> idxs)\<close>.  The local array \<open>size\<close> (here
  \<open>sizes\<close>) starts uninitialised; the two loops assign each of its \<open>D\<close> entries, so the
  zeros it starts with here never reach the result.
\<close>

definition local_size :: "cyclic_partitioning \<Rightarrow> int list \<Rightarrow> error + int list" where
  "local_size p idxs =
     then_do
       (for_dims [0..<G p]
          (\<lambda>dim sizes.
             then_do (at (global_size_' p) dim) (\<lambda>n.
             then_do (at (grid_size_' p) dim) (\<lambda>g.
             then_do (at idxs dim) (\<lambda>i.
             then_do (c_add n g) (\<lambda>a.
             then_do (c_sub a i) (\<lambda>b.
             then_do (c_sub b 1) (\<lambda>c.
             then_do (c_div c g) (\<lambda>q. set_at sizes dim q))))))))
          (replicate (D p) 0))
       (for_dims [G p..<D p]
          (\<lambda>dim sizes.
             then_do (at (global_size_' p) dim) (\<lambda>n. set_at sizes dim n)))"

text \<open>\<open>index_type<G> grid_owner(index_type<D> xs)\<close>; \<open>result\<close> starts uninitialised too.\<close>

definition grid_owner :: "cyclic_partitioning \<Rightarrow> int list \<Rightarrow> error + int list" where
  "grid_owner p xs =
     for_dims [0..<G p]
       (\<lambda>d result.
          then_do (at xs d) (\<lambda>x.
          then_do (at (grid_size_' p) d) (\<lambda>g.
          then_do (c_mod x g) (\<lambda>r. set_at result d r))))
       (replicate (G p) 0)"

text \<open>
  What the types of the class fix: the lengths of the two members, and \<open>G \<le> D\<close>, which
  the constructor asserts statically.
\<close>

definition wf_partitioning :: "cyclic_partitioning \<Rightarrow> bool" where
  "wf_partitioning p =
     (G p \<le> D p \<and> length (global_size_' p) = D p \<and> length (grid_size_' p) = G p)"

section \<open>Properties of the serialization buffer\<close>

subsection \<open>Auxiliary facts\<close>

lemma int_of_bytes_int_bytes: "int_of_bytes (int_bytes w) = w"
proof (rule bit_word_eqI)
  fix n assume "n < LENGTH(32)"
  then consider "n < 8" | "8 \<le> n" "n < 16" | "16 \<le> n" "n < 24" | "24 \<le> n" "n < 32"
    by fastforce
  then show "bit (int_of_bytes (int_bytes w)) n = bit w n"
    by cases (auto simp: int_bytes_def bit_simps)
qed

lemma length_int_bytes: "length (int_bytes w) = 4" by (simp add: int_bytes_def)

lemma length_memcpy_in:
  "i + length bs \<le> length buf \<Longrightarrow> length (memcpy_in buf i bs) = length buf"
  by (simp add: memcpy_in_def)

lemma memcpy_in_append:
  "i + length a \<le> length buf \<Longrightarrow>
   memcpy_in (memcpy_in buf i a) (i + length a) b = memcpy_in buf i (a @ b)"
  by (simp add: memcpy_in_def ac_simps)

lemma memcpy_in_Nil: "memcpy_in buf i [] = buf"
  by (simp add: memcpy_in_def)

lemma put_value_Nil: "index mb \<le> length (buffer mb) \<Longrightarrow> put_value [] mb = Inr mb"
  by (simp add: put_value_def memcpy_in_Nil)

lemma put_value_append:
  "put_value (a @ b) mb =
     (case put_value a mb of Inl e \<Rightarrow> Inl e | Inr mb' \<Rightarrow> put_value b mb')"
  by (simp add: put_value_def length_memcpy_in memcpy_in_append add.assoc)

lemma put_each_concat:
  "index mb \<le> length (buffer mb) \<Longrightarrow> put_each xs mb = put_value (concat xs) mb"
proof (induction xs arbitrary: mb)
  case Nil
  then show ?case by (simp add: put_value_Nil)
next
  case (Cons x xs)
  show ?case
  proof (cases "put_value x mb")
    case (Inl e)
    then show ?thesis by (simp add: put_value_append)
  next
    case (Inr mb')
    then have "index mb' \<le> length (buffer mb')"
      by (auto simp: put_value_def length_memcpy_in split: if_splits)
    with Cons.IH Inr show ?thesis by (simp add: put_value_append)
  qed
qed

lemma put_each_outside:
  "\<not> index mb \<le> length (buffer mb) \<Longrightarrow> put_each (x # xs) mb = Inl OutOfBounds"
  by (simp add: put_value_def)

lemma put_string_eq: "put_string s mb = put_value (s @ [0]) mb"
proof (cases "index mb \<le> length (buffer mb)")
  case True
  then show ?thesis
    by (simp add: put_string_def put_each_concat put_value_append concat_map_singleton)
next
  case False
  then show ?thesis
    by (cases s) (simp_all add: put_string_def put_value_def)
qed

lemma put_vector_eq:
  "put_vector xs mb = put_value (int_bytes (of_nat (length xs)) @ concat xs) mb"
proof (cases "put_value (int_bytes (of_nat (length xs))) mb")
  case (Inl e)
  then show ?thesis by (simp add: put_vector_def put_value_append)
next
  case (Inr mb')
  then have "index mb' \<le> length (buffer mb')"
    by (auto simp: put_value_def length_memcpy_in split: if_splits)
  with Inr show ?thesis by (simp add: put_vector_def put_value_append put_each_concat)
qed

lemma drop_memcpy_in:
  "i + length bs \<le> length buf \<Longrightarrow> drop i (memcpy_in buf i bs) = bs @ drop (i + length bs) buf"
  by (simp add: memcpy_in_def)

lemma get_put_value:
  assumes "index mb + length v \<le> length (buffer mb)"
  shows "\<exists>mb'. put_value v mb = Inr mb' \<and> get_value (length v) (mb'\<lparr>index := index mb\<rparr>) = Inr (v, mb')"
  using assms by (simp add: put_value_def get_value_def drop_memcpy_in length_memcpy_in)

lemma takeWhile_terminated:
  "0 \<notin> set s \<Longrightarrow> takeWhile (\<lambda>c. c \<noteq> (0::byte)) (s @ 0 # r) = s"
  by (induction s) auto

lemma get_put_string:
  assumes "0 \<notin> set s" "index mb + length s + 1 \<le> length (buffer mb)"
  shows "\<exists>mb'. put_string s mb = Inr mb' \<and> get_string (mb'\<lparr>index := index mb\<rparr>) = Inr (s, mb')"
  using assms by (simp add: put_string_eq put_value_def get_string_def drop_memcpy_in length_memcpy_in takeWhile_terminated)

lemma chunks_Suc: "chunks n (Suc k) bs = take n bs # chunks n k (drop n bs)"
proof -
  have "[0..<Suc k] = 0 # map Suc [0..<k]"
    by (simp add: upt_conv_Cons map_Suc_upt del: upt_Suc)
  then show ?thesis
    by (simp add: chunks_def comp_def ac_simps del: upt_Suc)
qed

lemma chunks_concat:
  "list_all (\<lambda>x. length x = n) xs \<Longrightarrow> chunks n (length xs) (concat xs @ r) = xs"
  by (induction xs) (simp_all add: chunks_Suc, simp add: chunks_def)

lemma sint_count: "n < 2 ^ 31 \<Longrightarrow> sint (of_nat n :: 32 word) = int n"
  by (simp add: signed_of_nat signed_take_bit_int_eq_self)

lemma length_concat_same:
  "list_all (\<lambda>x. length x = n) xs \<Longrightarrow> length (concat xs) = length xs * n"
  by (induction xs) simp_all

lemma drop_memcpy_in_append:
  "i + length a + length b \<le> length buf \<Longrightarrow>
   drop (i + length a) (memcpy_in buf i (a @ b)) = b @ drop (i + length a + length b) buf"
  by (simp add: memcpy_in_def ac_simps)

lemma take_drop_memcpy_in_append:
  "i + length a + length b \<le> length buf \<Longrightarrow>
   take (length a) (drop i (memcpy_in buf i (a @ b))) = a"
  by (simp add: memcpy_in_def)

lemma get_put_vector:
  assumes small: "length xs < 2 ^ 31" and wf: "list_all (\<lambda>x. length x = n) xs"
    and fits: "index mb + 4 + length xs * n \<le> length (buffer mb)"
  shows "\<exists>mb'. put_vector xs mb = Inr mb' \<and> get_vector n (mb'\<lparr>index := index mb\<rparr>) = Inr (xs, mb')"
proof -
  let ?c = "int_bytes (of_nat (length xs))"
  let ?buf = "memcpy_in (buffer mb) (index mb) (?c @ concat xs)"
  let ?mb' = "mb\<lparr>buffer := ?buf, index := index mb + length (?c @ concat xs)\<rparr>"
  have len: "length (?c @ concat xs) = 4 + length xs * n"
    using wf by (simp add: length_int_bytes length_concat_same)
  have bound: "index mb + length ?c + length (concat xs) \<le> length (buffer mb)"
    using fits len by simp
  have put: "put_vector xs mb = Inr ?mb'"
    using fits len by (simp add: put_vector_eq put_value_def)
  have lbuf: "length ?buf = length (buffer mb)"
    using fits len by (simp add: length_memcpy_in)
  have cnt: "take 4 (drop (index mb) ?buf) = ?c"
    using take_drop_memcpy_in_append [OF bound] by (simp add: length_int_bytes)
  have rest: "drop (index mb + 4) ?buf = concat xs @ drop (index mb + 4 + length xs * n) (buffer mb)"
    using drop_memcpy_in_append [OF bound] wf by (simp add: length_int_bytes length_concat_same)
  have "get_vector n (?mb'\<lparr>index := index mb\<rparr>) = Inr (xs, ?mb')"
    using fits small wf len
    by (simp add: get_vector_def get_value_def lbuf cnt rest int_of_bytes_int_bytes sint_count
        chunks_concat ac_simps)
  with put show ?thesis by blast
qed









lemma concat_replicate_single: "concat (replicate k [x]) = replicate k x"
  by (induction k) simp_all

subsection \<open>Round trip\<close>

text \<open>
  Claim C1, as the code has it.  Writing a value and reading it back at the same cursor
  position with the same type returns the value and leaves the cursor where the write
  left it, whenever the write stays inside the buffer:
  \<^item> for every fixed-width value, the bytes read are the bytes written;
  \<^item> for every string that contains no byte 0 (\<open>operator>>\<close> reads up to the first
    byte 0, and \<open>operator<<\<close> writes no length);
  \<^item> for every vector of fewer than \<open>2 ^ 31\<close> fixed-width elements (the count travels
    as an \<open>int\<close>).
\<close>

theorem serialize_round_trip:
  "(index mb + length v \<le> length (buffer mb) \<longrightarrow>
      (\<exists>mb'. put_value v mb = Inr mb' \<and>
             get_value (length v) (mb'\<lparr>index := index mb\<rparr>) = Inr (v, mb'))) \<and>
   (0 \<notin> set s \<and> index mb + length s + 1 \<le> length (buffer mb) \<longrightarrow>
      (\<exists>mb'. put_string s mb = Inr mb' \<and>
             get_string (mb'\<lparr>index := index mb\<rparr>) = Inr (s, mb'))) \<and>
   (length xs < 2 ^ 31 \<and> list_all (\<lambda>x. length x = n) xs \<and>
    index mb + 4 + length xs * n \<le> length (buffer mb) \<longrightarrow>
      (\<exists>mb'. put_vector xs mb = Inr mb' \<and>
             get_vector n (mb'\<lparr>index := index mb\<rparr>) = Inr (xs, mb')))"
  using get_put_value [of mb v] get_put_string [of s mb] get_put_vector [of xs n mb]
  by blast

text \<open>
  The three parts at a buffer of 16 bytes with the cursor at 3: the value
  \<open>01 02 03 04\<close>, the string \<open>"ab"\<close>, and the vector of the two-byte elements
  \<open>01 02\<close> and \<open>03 04\<close>.
\<close>

theorem serialize_round_trip_witness:
  "(3 + length [1, 2, 3, 4 :: byte] \<le> length (replicate 16 (0 :: byte)) \<and>
    (\<exists>mb'. put_value [1, 2, 3, 4] \<lparr>buffer = replicate 16 0, index = 3\<rparr> = Inr mb' \<and>
           get_value (length [1, 2, 3, 4 :: byte]) (mb'\<lparr>index := 3\<rparr>)
             = Inr ([1, 2, 3, 4], mb'))) \<and>
   ((0 :: byte) \<notin> set [97, 98] \<and>
    3 + length [97, 98 :: byte] + 1 \<le> length (replicate 16 (0 :: byte)) \<and>
    (\<exists>mb'. put_string [97, 98] \<lparr>buffer = replicate 16 0, index = 3\<rparr> = Inr mb' \<and>
           get_string (mb'\<lparr>index := 3\<rparr>) = Inr ([97, 98], mb'))) \<and>
   (length [[1, 2], [3, 4 :: byte]] < 2 ^ 31 \<and>
    list_all (\<lambda>x. length x = 2) [[1, 2], [3, 4 :: byte]] \<and>
    3 + 4 + length [[1, 2], [3, 4 :: byte]] * 2 \<le> length (replicate 16 (0 :: byte)) \<and>
    (\<exists>mb'. put_vector [[1, 2], [3, 4]] \<lparr>buffer = replicate 16 0, index = 3\<rparr> = Inr mb' \<and>
           get_vector 2 (mb'\<lparr>index := 3\<rparr>) = Inr ([[1, 2], [3, 4]], mb')))"
  using serialize_round_trip [of "\<lparr>buffer = replicate 16 0, index = 3\<rparr>" "[1, 2, 3, 4]"
      "[97, 98]" "[[1, 2], [3, 4]]" 2]
  by simp

text \<open>
  Where the round trip of C1 fails.  The string of the three bytes \<open>61 00 62\<close> is
  written as \<open>61 00 62 00\<close>, and read back as the one-byte string \<open>61\<close>, with the
  cursor at 2 instead of 4.  The vector of \<open>2 ^ 31\<close> one-byte elements is written with
  the count \<open>00 00 00 80\<close>, which is read back as the negative \<open>int\<close> \<open>- 2 ^ 31\<close>:
  the \<open>resize\<close> fails.
\<close>

theorem serialize_round_trip_counterexample:
  "put_string [97, 0, 98] \<lparr>buffer = [255, 255, 255, 255, 255], index = 0\<rparr>
     = Inr \<lparr>buffer = [97, 0, 98, 0, 255], index = 4\<rparr> \<and>
   get_string \<lparr>buffer = [97, 0, 98, 0, 255], index = 0\<rparr>
     = Inr ([97], \<lparr>buffer = [97, 0, 98, 0, 255], index = 2\<rparr>) \<and>
   put_vector (replicate (2 ^ 31) [0]) \<lparr>buffer = replicate (2 ^ 31 + 4) 255, index = 0\<rparr>
     = Inr \<lparr>buffer = [0, 0, 0, 128] @ replicate (2 ^ 31) 0, index = 2 ^ 31 + 4\<rparr> \<and>
   get_vector 1 \<lparr>buffer = [0, 0, 0, 128] @ replicate (2 ^ 31) 0, index = 0\<rparr>
     = Inl LengthError"
proof (intro conjI)
  show "put_string [97, 0, 98] \<lparr>buffer = [255, 255, 255, 255, 255], index = 0\<rparr>
     = Inr \<lparr>buffer = [97, 0, 98, 0, 255], index = 4\<rparr>"
    by (simp add: put_string_eq put_value_def memcpy_in_def)
  show "get_string \<lparr>buffer = [97, 0, 98, 0, 255], index = 0\<rparr>
     = Inr ([97], \<lparr>buffer = [97, 0, 98, 0, 255], index = 2\<rparr>)"
    by (simp add: get_string_def)
  have c: "int_bytes 2147483648 = [0, 0, 0, 128]"
    by (simp add: int_bytes_def)
  show "put_vector (replicate (2 ^ 31) [0]) \<lparr>buffer = replicate (2 ^ 31 + 4) 255, index = 0\<rparr>
     = Inr \<lparr>buffer = [0, 0, 0, 128] @ replicate (2 ^ 31) 0, index = 2 ^ 31 + 4\<rparr>"
    by (simp add: put_vector_eq put_value_def memcpy_in_def c concat_replicate_single)
  have "int_of_bytes [0, 0, 0, 128] = (2147483648 :: 32 word)"
    by simp
  then have "sint (int_of_bytes [0, 0, 0, 128]) < 0"
    by simp
  then show "get_vector 1 \<lparr>buffer = [0, 0, 0, 128] @ replicate (2 ^ 31) 0, index = 0\<rparr>
     = Inl LengthError"
    by (simp add: get_vector_def get_value_def)
qed

subsection \<open>The scaler\<close>



subsection \<open>The serialized form of a string\<close>

text \<open>
  Claim C3, as the code has it.  For every string and every buffer with room for it,
  serializing the string writes its bytes followed by one terminator byte 0, and nothing
  else: no byte count precedes them.  The cursor advances by \<open>size() + 1\<close>, and this is
  what the scaler adds for the string.
\<close>

theorem string_wire_form:
  "index mb + length s + 1 \<le> length (buffer mb) \<Longrightarrow>
   put_string s mb =
     Inr \<lparr>buffer = take (index mb) (buffer mb) @ s @ [0] @
                    drop (index mb + length s + 1) (buffer mb),
          index = index mb + length s + 1\<rparr> \<and>
   scale_string w s sz = (sz + length s + 1) mod 2 ^ w"
  by (simp add: put_string_eq put_value_def memcpy_in_def scale_string_def ac_simps)

text \<open>The string \<open>"ab"\<close> written at cursor 1 of a buffer of five bytes \<open>FF\<close>.\<close>

theorem string_wire_form_witness:
  "1 + length [97, 98 :: byte] + 1 \<le> length [255, 255, 255, 255, 255 :: byte] \<and>
   put_string [97, 98] \<lparr>buffer = [255, 255, 255, 255, 255], index = 1\<rparr> =
     Inr \<lparr>buffer = [255, 97, 98, 0, 255], index = 4\<rparr> \<and>
   scale_string 32 [97, 98] 0 = 3"
proof -
  have h: "index \<lparr>buffer = [255, 255, 255, 255, 255], index = 1\<rparr> + length [97, 98 :: byte] + 1
             \<le> length (buffer \<lparr>buffer = [255, 255, 255, 255, 255], index = 1\<rparr>)"
    by simp
  show ?thesis using string_wire_form [OF h, of 32 0] by simp
qed

text \<open>
  Against C3 as it is stated: the string \<open>"ab"\<close> written at the start of a buffer of
  eight bytes \<open>FF\<close>.  The serialized form is the three bytes \<open>61 62 00\<close>: it begins with
  the character \<open>'a'\<close> and not with a count of the bytes that follow, and the cursor stops
  after \<open>size() + 1 = 3\<close> bytes, which leaves no room for a length field.
\<close>

theorem string_wire_form_counterexample:
  "put_string [97, 98] \<lparr>buffer = [255, 255, 255, 255, 255, 255, 255, 255], index = 0\<rparr> =
     Inr \<lparr>buffer = [97, 98, 0, 255, 255, 255, 255, 255], index = 3\<rparr>"
  by (simp add: put_string_eq put_value_def memcpy_in_def)

section \<open>Properties of the message queue\<close>

subsection \<open>Sending a vector of messages\<close>

lemma send_msgs_fold:
  "send_msgs ws n s ms w = fold (\<lambda>m. send ws n s m) ms w"
  by (induction ms arbitrary: w) (simp_all add: send_def)

lemma send_msgs_record:
  "send_msgs record_send n s ms calls = calls @ map (\<lambda>m. (t_' s, id_' (q_' s), m, n)) ms"
  by (induction ms arbitrary: calls) (simp_all add: send_'_def record_send_def)

text \<open>
  Claim C4.  For every sender (every queue and every destination processor \<open>t\<close>) and
  every list of messages \<open>ms\<close>, the vector overload of \<open>sender::send\<close> does to the
  world, whatever its \<open>send_\<close> does, exactly what calling the single-message
  \<open>sender::send\<close> once per element of \<open>ms\<close> in list order does.  In a world that
  records the calls of \<open>send_\<close>, both issue one call per message, in list order, each
  to the sender's destination and the queue's id.
\<close>

theorem send_vector_repeats_send:
  "send_msgs world_send n s ms w = fold (\<lambda>m. send world_send n s m) ms w \<and>
   send_msgs record_send n s ms calls = calls @ map (\<lambda>m. (t_' s, id_' (q_' s), m, n)) ms \<and>
   fold (\<lambda>m. send record_send n s m) ms calls = calls @ map (\<lambda>m. (t_' s, id_' (q_' s), m, n)) ms"
  using send_msgs_fold [of world_send n s ms w] send_msgs_fold [of record_send n s ms calls]
    send_msgs_record [of n s ms calls]
  by simp

subsection \<open>The delivery buffer\<close>

text \<open>
  Claim C7.  For every queue in every state, after \<open>clear_()\<close> the local delivery buffer
  holds no messages: \<open>size()\<close> returns 0 and \<open>empty()\<close> returns true.  The queue keeps
  its registration id.
\<close>

theorem clear_empties:
  "size_queue (clear_' q) = 0 \<and> empty_queue (clear_' q) \<and> id_' (clear_' q) = id_' q"
  by (simp add: clear_'_def size_queue_def empty_queue_def)

text \<open>
  Claim C8.  For every queue state and every message \<open>m\<close>, \<open>unsafe_push_back(&m)\<close>
  appends exactly one message equal to \<open>m\<close> at the end of the local delivery buffer:
  \<open>size()\<close> grows by one, the last message is \<open>m\<close>, and the messages that were in the
  buffer are unchanged and where they were.
\<close>

theorem push_back_appends:
  "unsafe_push_back (Some m) q = Inr (q\<lparr>data_' := data_' q @ [m]\<rparr>) \<and>
   size_queue (q\<lparr>data_' := data_' q @ [m]\<rparr>) = size_queue q + 1 \<and>
   last (data_' (q\<lparr>data_' := data_' q @ [m]\<rparr>)) = m \<and>
   take (size_queue q) (data_' (q\<lparr>data_' := data_' q @ [m]\<rparr>)) = data_' q \<and>
   id_' (q\<lparr>data_' := data_' q @ [m]\<rparr>) = id_' q"
  by (simp add: unsafe_push_back_def size_queue_def)

lemma length_resize: "length (resize k d xs) = k"
  by (simp add: resize_def)

lemma take_resize: "take (length xs) (resize k d xs) = take k xs"
  by (cases "k \<le> length xs") (simp_all add: resize_def min_def)

text \<open>
  Claim C6 at the byte count 0, which is non-negative and a multiple of every message
  size: \<open>get_buffer_(0)\<close> resizes the delivery buffer to no slots and then evaluates
  \<open>data_[0]\<close> on the empty vector to form the pointer it returns.  The subscript is
  outside the vector, so the call does not return a pointer to the storage.
  (\<open>unsafe_push_array\<close> takes the storage of a vector it has just resized with
  \<open>data()\<close>, which an empty vector allows.)
\<close>

theorem get_buffer_empty:
  "get_buffer_' sizeof_message d 0 q = Inl OutOfBounds"
  by (simp add: get_buffer_'_def resize_def)

text \<open>
  For every positive byte count that is a multiple of the message size, \<open>get_buffer_\<close>
  does what C6 says: the buffer holds exactly \<open>n / sizeof(message_type)\<close> slots, which
  take \<open>n\<close> bytes, and the result points to the first of them.
\<close>

lemma get_buffer_positive:
  assumes "0 < n" "0 < sizeof_message" "int sizeof_message dvd n"
  shows "\<exists>q'. get_buffer_' sizeof_message d n q = Inr (Slot 0, q') \<and>
              size_queue q' = nat n div sizeof_message \<and>
              size_queue q' * sizeof_message = nat n \<and>
              take (size_queue q) (data_' q') = take (size_queue q') (data_' q) \<and>
              id_' q' = id_' q"
proof -
  from assms obtain k where k: "n = int sizeof_message * k" by (auto simp: dvd_def)
  with assms have kpos: "0 < k" by (simp add: zero_less_mult_iff)
  then have "nat n = sizeof_message * nat k" using k by (simp add: nat_mult_distrib)
  then have d: "nat n div sizeof_message = nat k" using assms(2) by simp
  have ne: "resize (nat k) d (data_' q) \<noteq> []"
    using kpos length_resize [of "nat k" d "data_' q"] by auto
  with d kpos assms show ?thesis
    by (simp add: get_buffer_'_def length_resize take_resize size_queue_def Let_def
        \<open>nat n = sizeof_message * nat k\<close>)
qed

subsection \<open>Array-valued messages\<close>

lemma resize_all:
  "list_all P xs \<Longrightarrow> P d \<Longrightarrow> list_all P (resize k d xs)"
  by (auto simp: resize_def list_all_iff dest: in_set_takeD)

lemma length_concat_resize:
  "list_all (\<lambda>x. length x = esz) xs \<Longrightarrow>
   length (concat (resize k (replicate esz 0) xs)) = k * esz"
  by (rule trans [OF length_concat_same [of esz]]) (simp_all add: resize_all length_resize)

lemma memcpy_elements_all:
  assumes el: "list_all (\<lambda>x. length x = esz) elems"
    and st: "list_all (\<lambda>x. length x = esz) old"
  shows "memcpy_elements esz (resize (length elems) (replicate esz 0) old) (concat elems)
           (esz * length elems) = Inr elems"
proof -
  have l1: "length (concat elems) = length elems * esz"
    using el by (rule length_concat_same)
  have l2: "length (concat (resize (length elems) (replicate esz 0) old)) = length elems * esz"
    using st by (rule length_concat_resize)
  have "chunks esz (length elems) (concat elems @ []) = elems"
    using el by (rule chunks_concat)
  then show ?thesis
    by (simp add: memcpy_elements_def l1 l2 length_resize ac_simps)
qed

lemma resize_copy_all:
  assumes el: "list_all (\<lambda>x. length x = esz) elems"
    and cnt: "sint count = int (length elems)"
    and addr: "length elems * esz < 2 ^ w"
    and st: "list_all (\<lambda>x. length x = esz) (content msg)"
  shows "resize_copy w esz count esz (concat elems) msg = Inr (msg\<lparr>content := elems\<rparr>)"
proof -
  from addr have "(esz * length elems) mod 2 ^ w = esz * length elems"
    by (simp add: ac_simps)
  with memcpy_elements_all [OF el st] cnt show ?thesis
    by (simp add: resize_copy_def)
qed

text \<open>
  Claim C5.  For every array-valued message delivered through \<open>unsafe_push_array\<close>,
  that is, for \<open>n\<close> elements of the element type, given by the \<open>int\<close> count \<open>n\<close>,
  the size \<open>sizeof(element_type)\<close> and the bytes of the elements (which fit the address
  space): exactly one message is appended to the local delivery buffer, and its array
  content equals the \<open>n\<close> elements in order.  This holds for a queue without trailing
  fields, where the message comes without them (\<open>size_of_other = 0\<close>), and for a queue
  with trailing fields, where they are supplied as a message \<open>m\<close> of the queue's type:
  then the remaining fields of the appended message equal those of \<open>m\<close>.
\<close>

theorem push_array_delivers:
  assumes el: "list_all (\<lambda>x. length x = esz) elems"
    and cnt: "sint count = int (length elems)"
    and addr: "length elems * esz < 2 ^ w"
  shows "unsafe_push_array w esz 0 () count esz (concat elems) 0 other qa
           = Inr (qa\<lparr>data_' := data_' qa @ [\<lparr>content = elems, rest = ()\<rparr>]\<rparr>) \<and>
         (0 < n_ts \<and> size_of_other \<noteq> 0 \<and> list_all (\<lambda>x. length x = esz) (content m) \<longrightarrow>
          unsafe_push_array w esz n_ts d count esz (concat elems) size_of_other (Some m) q
           = Inr (q\<lparr>data_' := data_' q @ [\<lparr>content = elems, rest = rest m\<rparr>]\<rparr>))"
proof (intro conjI impI)
  have "resize_copy w esz count esz (concat elems) \<lparr>content = [], rest = ()\<rparr>
          = Inr \<lparr>content = elems, rest = ()\<rparr>"
    using resize_copy_all [OF el cnt addr, of "\<lparr>content = [], rest = ()\<rparr>"] by simp
  then show "unsafe_push_array w esz 0 () count esz (concat elems) 0 other qa
           = Inr (qa\<lparr>data_' := data_' qa @ [\<lparr>content = elems, rest = ()\<rparr>]\<rparr>)"
    by (simp add: unsafe_push_array_def)
next
  assume a: "0 < n_ts \<and> size_of_other \<noteq> 0 \<and> list_all (\<lambda>x. length x = esz) (content m)"
  then have "resize_copy w esz count esz (concat elems) m = Inr (m\<lparr>content := elems\<rparr>)"
    using resize_copy_all [OF el cnt addr, of m] by simp
  with a show "unsafe_push_array w esz n_ts d count esz (concat elems) size_of_other (Some m) q
           = Inr (q\<lparr>data_' := data_' q @ [\<lparr>content = elems, rest = rest m\<rparr>]\<rparr>)"
    by (simp add: unsafe_push_array_def)
qed

text \<open>
  The three \<open>int\<close> elements 10, 20 and 30 on a machine with a \<open>size_t\<close> of 32 bits,
  first into an empty queue of \<open>int[]\<close>, then into a queue of \<open>int[]\<close> with one trailing
  field that already holds a message.
\<close>

theorem push_array_delivers_witness:
  "list_all (\<lambda>x. length x = 4) [[10, 0, 0, 0], [20, 0, 0, 0], [30, 0, 0, 0 :: byte]] \<and>
   sint (3 :: 32 word) = int (length [[10, 0, 0, 0], [20, 0, 0, 0], [30, 0, 0, 0 :: byte]]) \<and>
   length [[10, 0, 0, 0], [20, 0, 0, 0], [30, 0, 0, 0 :: byte]] * 4 < (2 :: nat) ^ 32 \<and>
   unsafe_push_array 32 4 0 () 3 4
       (concat [[10, 0, 0, 0], [20, 0, 0, 0], [30, 0, 0, 0]]) 0 None \<lparr>data_' = [], id_' = 0\<rparr>
     = Inr \<lparr>data_' = [\<lparr>content = [[10, 0, 0, 0], [20, 0, 0, 0], [30, 0, 0, 0]], rest = ()\<rparr>],
            id_' = 0\<rparr> \<and>
   (0 :: nat) < 1 \<and> (8 :: nat) \<noteq> 0 \<and>
   list_all (\<lambda>x. length x = 4) (content \<lparr>content = [], rest = (5 :: int)\<rparr>) \<and>
   unsafe_push_array 32 4 1 (7 :: int) 3 4
       (concat [[10, 0, 0, 0], [20, 0, 0, 0], [30, 0, 0, 0]]) 8 (Some \<lparr>content = [], rest = 5\<rparr>)
       \<lparr>data_' = [\<lparr>content = [], rest = 1\<rparr>], id_' = 0\<rparr>
     = Inr \<lparr>data_' = [\<lparr>content = [], rest = 1\<rparr>,
                      \<lparr>content = [[10, 0, 0, 0], [20, 0, 0, 0], [30, 0, 0, 0]], rest = 5\<rparr>],
            id_' = 0\<rparr>"
proof -
  let ?elems = "[[10, 0, 0, 0], [20, 0, 0, 0], [30, 0, 0, 0 :: byte]]"
  have el: "list_all (\<lambda>x. length x = 4) ?elems" by simp
  have cnt: "sint (3 :: 32 word) = int (length ?elems)" by simp
  have addr: "length ?elems * 4 < (2 :: nat) ^ 32" by simp
  have a: "unsafe_push_array 32 4 0 () 3 4 (concat ?elems) 0 None \<lparr>data_' = [], id_' = 0\<rparr>
     = Inr \<lparr>data_' = [\<lparr>content = ?elems, rest = ()\<rparr>], id_' = 0\<rparr>"
    using push_array_delivers [where elems = ?elems and esz = 4 and count = 3 and w = 32
        and other = None and qa = "\<lparr>data_' = [], id_' = 0\<rparr>", OF el cnt addr, THEN conjunct1]
    by simp
  have b: "unsafe_push_array 32 4 1 (7 :: int) 3 4 (concat ?elems) 8
       (Some \<lparr>content = [], rest = 5 :: int\<rparr>) \<lparr>data_' = [\<lparr>content = [], rest = 1\<rparr>], id_' = 0\<rparr>
     = Inr \<lparr>data_' = [\<lparr>content = [], rest = 1\<rparr>, \<lparr>content = ?elems, rest = 5\<rparr>], id_' = 0\<rparr>"
    using push_array_delivers [where elems = ?elems and esz = 4 and count = 3 and w = 32
        and n_ts = 1 and d = "7 :: int"
        and q = "\<lparr>data_' = [\<lparr>content = [], rest = 1\<rparr>], id_' = 0\<rparr>"
        and size_of_other = 8 and m = "\<lparr>content = [], rest = 5\<rparr>", OF el cnt addr,
        THEN conjunct2]
    by simp
  from el cnt addr a b show ?thesis by simp
qed

text \<open>
  Outside the two cases of C5 the casts do not fit the message: a queue with trailing
  fields that is handed none, and a queue without trailing fields that is handed some.
\<close>

lemma push_array_bad_cast:
  "0 < n_ts \<Longrightarrow> unsafe_push_array w esz n_ts d count sz data 0 other q = Inl BadCast"
  "size_of_other \<noteq> 0 \<Longrightarrow>
   unsafe_push_array w esz 0 d count sz data size_of_other (Some m) q = Inl BadCast"
  by (simp_all add: unsafe_push_array_def)

section \<open>Properties of \<open>stream::write\<close>\<close>







text \<open>
  When the bytes remaining are a multiple of 8, as they are while the capacity is one
  (\<open>create_stream\<close> rounds it up) and the cursor has only been moved by \<open>write\<close>, every
  size that fits also fits after it is rounded up.
\<close>

lemma round_up_fits_aligned:
  fixes n r :: nat
  assumes "8 dvd r" "n \<le> r"
  shows "(n + 7) div 8 * 8 \<le> r"
  using assms by presburger



section \<open>Properties of the cyclic partitioning\<close>

lemma then_do_Inr [simp]: "then_do (Inr x) f = f x"
  by (simp add: then_do_def)

lemma then_do_Inl [simp]: "then_do (Inl e) f = Inl e"
  by (simp add: then_do_def)

lemma for_dims_assigns:
  assumes "distinct ds" and "\<forall>d\<in>set ds. d < length s"
    and "\<And>d s'. d \<in> set ds \<Longrightarrow> length s' = length s \<Longrightarrow> s' ! d = s ! d \<Longrightarrow>
            body d s' = Inr (s'[d := f d])"
  shows "\<exists>r. for_dims ds body s = Inr r \<and> length r = length s \<and>
             (\<forall>j<length s. r ! j = (if j \<in> set ds then f j else s ! j))"
  using assms
proof (induction ds arbitrary: s)
  case Nil
  then show ?case by simp
next
  case (Cons d ds)
  let ?s1 = "s[d := f d]"
  have step: "body d s = Inr ?s1"
    using Cons.prems(3) [of d s] by simp
  have d: "d < length s" "d \<notin> set ds" "distinct ds"
    using Cons.prems(1,2) by simp_all
  have "\<exists>r. for_dims ds body ?s1 = Inr r \<and> length r = length ?s1 \<and>
             (\<forall>j<length ?s1. r ! j = (if j \<in> set ds then f j else ?s1 ! j))"
  proof (rule Cons.IH)
    show "distinct ds" by (rule d(3))
    show "\<forall>d\<in>set ds. d < length ?s1" using Cons.prems(2) by simp
    fix d' s' assume a: "d' \<in> set ds" "length s' = length ?s1" "s' ! d' = ?s1 ! d'"
    with d have "d' \<noteq> d" by auto
    with a show "body d' s' = Inr (s'[d' := f d'])"
      using Cons.prems(3) [of d' s'] by simp
  qed
  then obtain r where r: "for_dims ds body ?s1 = Inr r" "length r = length s"
    "\<forall>j<length s. r ! j = (if j \<in> set ds then f j else ?s1 ! j)"
    by auto
  have "\<forall>j<length s. r ! j = (if j \<in> set (d # ds) then f j else s ! j)"
    using r(3) d by (auto simp: nth_list_update)
  with r step show ?case by simp
qed

lemma sdiv_nonneg: "0 \<le> a \<Longrightarrow> 0 < b \<Longrightarrow> a sdiv b = a div (b :: int)"
  by (simp add: signed_divide_int_def sgn_if)

lemma smod_nonneg: "0 \<le> a \<Longrightarrow> 0 < b \<Longrightarrow> a smod b = a mod (b :: int)"
  by (simp add: signed_modulo_int_def sgn_if)

lemma c_div_nonneg: "0 \<le> a \<Longrightarrow> 0 < b \<Longrightarrow> c_div a b = Inr (a div b)"
  by (simp add: c_div_def sdiv_nonneg INT_MIN_def)

lemma c_mod_nonneg: "0 \<le> a \<Longrightarrow> 0 < b \<Longrightarrow> c_mod a b = Inr (a mod b)"
  by (simp add: c_mod_def smod_nonneg INT_MIN_def)

lemma cyclic_local_bound:
  fixes x g n :: int
  assumes "0 \<le> x" "x < n" "0 < g"
  shows "x div g < (n + g - x mod g - 1) div g"
proof -
  have "(x div g + 1) * g \<le> n + g - x mod g - 1"
    using assms by (simp add: algebra_simps)
  then have "x div g + 1 \<le> (n + g - x mod g - 1) div g"
    using assms(3) by (metis zdiv_mono1 nonzero_mult_div_cancel_right less_irrefl)
  then show ?thesis by simp
qed

lemma grid_owner_result:
  assumes wf: "wf_partitioning p" and len: "length xs = D p"
    and grid: "\<forall>d<G p. 0 < grid_size_' p ! d"
    and nonneg: "\<forall>d<G p. 0 \<le> xs ! d"
  shows "\<exists>r. grid_owner p xs = Inr r \<and> length r = G p \<and>
             (\<forall>d<G p. r ! d = xs ! d mod grid_size_' p ! d)"
proof -
  let ?s = "replicate (G p) (0 :: int)"
  let ?body = "\<lambda>d result.
          then_do (at xs d) (\<lambda>x.
          then_do (at (grid_size_' p) d) (\<lambda>g.
          then_do (c_mod x g) (\<lambda>r. set_at result d r)))"
  have "\<exists>r. for_dims [0..<G p] ?body ?s = Inr r \<and> length r = length ?s \<and>
          (\<forall>j<length ?s. r ! j = (if j \<in> set [0..<G p] then xs ! j mod grid_size_' p ! j else ?s ! j))"
  proof (rule for_dims_assigns)
    show "distinct [0..<G p]" by simp
    show "\<forall>d\<in>set [0..<G p]. d < length ?s" by simp
    fix d s' assume a: "d \<in> set [0..<G p]" "length s' = length ?s" "s' ! d = ?s ! d"
    then have d: "d < G p" by simp
    with wf len have "d < length xs" "d < length (grid_size_' p)"
      by (simp_all add: wf_partitioning_def)
    with a d grid nonneg show "?body d s' = Inr (s'[d := xs ! d mod grid_size_' p ! d])"
      by (simp add: at_def set_at_def c_mod_nonneg)
  qed
  then show ?thesis by (simp add: grid_owner_def)
qed

lemma global_to_local_result:
  assumes wf: "wf_partitioning p" and len: "length xs = D p"
    and grid: "\<forall>d<G p. 0 < grid_size_' p ! d"
    and nonneg: "\<forall>d<G p. 0 \<le> xs ! d"
  shows "\<exists>r. global_to_local p xs = Inr r \<and> length r = D p \<and>
             (\<forall>d<D p. r ! d = (if d < G p then xs ! d div grid_size_' p ! d else xs ! d))"
proof -
  let ?body = "\<lambda>d idx.
          then_do (at idx d) (\<lambda>x.
          then_do (at (grid_size_' p) d) (\<lambda>g.
          then_do (c_div x g) (\<lambda>q. set_at idx d q)))"
  have "\<exists>r. for_dims [0..<G p] ?body xs = Inr r \<and> length r = length xs \<and>
          (\<forall>j<length xs. r ! j = (if j \<in> set [0..<G p] then xs ! j div grid_size_' p ! j else xs ! j))"
  proof (rule for_dims_assigns)
    show "distinct [0..<G p]" by simp
    show "\<forall>d\<in>set [0..<G p]. d < length xs"
      using wf len by (simp add: wf_partitioning_def)
    fix d s' assume a: "d \<in> set [0..<G p]" "length s' = length xs" "s' ! d = xs ! d"
    then have d: "d < G p" by simp
    with wf len have "d < length xs" "d < length (grid_size_' p)"
      by (simp_all add: wf_partitioning_def)
    with a d grid nonneg show "?body d s' = Inr (s'[d := xs ! d div grid_size_' p ! d])"
      by (simp add: at_def set_at_def c_div_nonneg)
  qed
  then show ?thesis using len by (simp add: global_to_local_def)
qed

lemma local_size_result:
  assumes wf: "wf_partitioning p" and len: "length idxs = G p"
    and grid: "\<forall>d<G p. 0 < grid_size_' p ! d"
    and idx: "\<forall>d<G p. 0 \<le> idxs ! d \<and> idxs ! d < grid_size_' p ! d"
    and glob: "\<forall>d<G p. 0 \<le> global_size_' p ! d \<and>
                 global_size_' p ! d + grid_size_' p ! d \<le> INT_MAX"
  shows "\<exists>r. local_size p idxs = Inr r \<and> length r = D p \<and>
             (\<forall>d<D p. r ! d =
                (if d < G p
                 then (global_size_' p ! d + grid_size_' p ! d - idxs ! d - 1) div grid_size_' p ! d
                 else global_size_' p ! d))"
proof -
  let ?s = "replicate (D p) (0 :: int)"
  let ?f = "\<lambda>d. (global_size_' p ! d + grid_size_' p ! d - idxs ! d - 1) div grid_size_' p ! d"
  let ?body1 = "\<lambda>dim sizes.
             then_do (at (global_size_' p) dim) (\<lambda>n.
             then_do (at (grid_size_' p) dim) (\<lambda>g.
             then_do (at idxs dim) (\<lambda>i.
             then_do (c_add n g) (\<lambda>a.
             then_do (c_sub a i) (\<lambda>b.
             then_do (c_sub b 1) (\<lambda>c.
             then_do (c_div c g) (\<lambda>q. set_at sizes dim q)))))))"
  let ?body2 = "\<lambda>dim sizes.
             then_do (at (global_size_' p) dim) (\<lambda>n. set_at sizes dim n)"
  have "\<exists>r. for_dims [0..<G p] ?body1 ?s = Inr r \<and> length r = length ?s \<and>
          (\<forall>j<length ?s. r ! j = (if j \<in> set [0..<G p] then ?f j else ?s ! j))"
  proof (rule for_dims_assigns)
    show "distinct [0..<G p]" by simp
    show "\<forall>d\<in>set [0..<G p]. d < length ?s"
      using wf by (simp add: wf_partitioning_def)
    fix d s' assume a: "d \<in> set [0..<G p]" "length s' = length ?s" "s' ! d = ?s ! d"
    then have d: "d < G p" by simp
    with wf len have r: "d < length idxs" "d < length (grid_size_' p)"
      "d < length (global_size_' p)" "d < length s'"
      using a(2) by (simp_all add: wf_partitioning_def)
    from d grid idx glob have b: "0 < grid_size_' p ! d" "0 \<le> idxs ! d"
      "idxs ! d < grid_size_' p ! d" "0 \<le> global_size_' p ! d"
      "global_size_' p ! d + grid_size_' p ! d \<le> INT_MAX"
      by simp_all
    then have c: "c_add (global_size_' p ! d) (grid_size_' p ! d)
                    = Inr (global_size_' p ! d + grid_size_' p ! d)"
      "c_sub (global_size_' p ! d + grid_size_' p ! d) (idxs ! d)
                    = Inr (global_size_' p ! d + grid_size_' p ! d - idxs ! d)"
      "c_sub (global_size_' p ! d + grid_size_' p ! d - idxs ! d) 1
                    = Inr (global_size_' p ! d + grid_size_' p ! d - idxs ! d - 1)"
      by (simp_all add: c_add_def c_sub_def in_int_def INT_MIN_def INT_MAX_def)
    from b have "0 \<le> global_size_' p ! d + grid_size_' p ! d - idxs ! d - 1" by simp
    then have "c_div (global_size_' p ! d + grid_size_' p ! d - idxs ! d - 1) (grid_size_' p ! d)
                 = Inr (?f d)"
      using b(1) by (rule c_div_nonneg)
    with r c show "?body1 d s' = Inr (s'[d := ?f d])"
      by (simp add: at_def set_at_def)
  qed
  then obtain r1 where r1: "for_dims [0..<G p] ?body1 ?s = Inr r1" "length r1 = D p"
    "\<forall>j<D p. r1 ! j = (if j < G p then ?f j else ?s ! j)"
    by auto
  have "\<exists>r. for_dims [G p..<D p] ?body2 r1 = Inr r \<and> length r = length r1 \<and>
          (\<forall>j<length r1. r ! j = (if j \<in> set [G p..<D p] then global_size_' p ! j else r1 ! j))"
  proof (rule for_dims_assigns)
    show "distinct [G p..<D p]" by simp
    show "\<forall>d\<in>set [G p..<D p]. d < length r1" using r1(2) by simp
    fix d s' assume a: "d \<in> set [G p..<D p]" "length s' = length r1" "s' ! d = r1 ! d"
    with wf r1(2) show "?body2 d s' = Inr (s'[d := global_size_' p ! d])"
      by (simp add: at_def set_at_def wf_partitioning_def)
  qed
  then obtain r2 where r2: "for_dims [G p..<D p] ?body2 r1 = Inr r2" "length r2 = D p"
    "\<forall>j<D p. r2 ! j = (if G p \<le> j then global_size_' p ! j else r1 ! j)"
    using r1(2) by auto
  have "\<forall>d<D p. r2 ! d = (if d < G p then ?f d else global_size_' p ! d)"
    using r1(3) r2(3) by auto
  with r1(1) r2(1,2) show ?thesis
    by (auto simp: local_size_def)
qed

text \<open>
  Claim C10, as the code has it.  For every cyclic partitioning whose grid sizes are at
  least 1 and whose sums \<open>global_size[d] + grid_size[d]\<close> stay within \<open>int\<close> in the
  first \<open>G\<close> dimensions, and for every global index \<open>xs\<close> with
  \<open>0 \<le> xs[d] < global_size[d]\<close> in each dimension \<open>d\<close>: \<open>grid_owner\<close>,
  \<open>global_to_local\<close> and \<open>local_size\<close> of the owner all return, \<open>grid_owner(xs)[d]\<close>
  lies in \<open>[0, grid_size[d])\<close> for each of the first \<open>G\<close> dimensions, and
  \<open>global_to_local(xs)[d]\<close> is strictly less than \<open>local_size(grid_owner(xs))[d]\<close> in
  every dimension.
\<close>

theorem cyclic_maps_consistent:
  assumes wf: "wf_partitioning p" and len: "length xs = D p"
    and grid: "\<forall>d<G p. 1 \<le> grid_size_' p ! d \<and>
                 global_size_' p ! d + grid_size_' p ! d \<le> INT_MAX"
    and range: "\<forall>d<D p. 0 \<le> xs ! d \<and> xs ! d < global_size_' p ! d"
  shows "\<exists>owner loc sizes.
           grid_owner p xs = Inr owner \<and> global_to_local p xs = Inr loc \<and>
           local_size p owner = Inr sizes \<and>
           length owner = G p \<and> length loc = D p \<and> length sizes = D p \<and>
           (\<forall>d<G p. 0 \<le> owner ! d \<and> owner ! d < grid_size_' p ! d) \<and>
           (\<forall>d<D p. loc ! d < sizes ! d)"
proof -
  from wf have GD: "G p \<le> D p" by (simp add: wf_partitioning_def)
  from grid have g: "\<forall>d<G p. 0 < grid_size_' p ! d" by auto
  from range GD have nn: "\<forall>d<G p. 0 \<le> xs ! d" by auto
  from grid_owner_result [OF wf len g nn] obtain owner
    where ow: "grid_owner p xs = Inr owner" "length owner = G p"
      "\<forall>d<G p. owner ! d = xs ! d mod grid_size_' p ! d"
    by blast
  from global_to_local_result [OF wf len g nn] obtain loc
    where lo: "global_to_local p xs = Inr loc" "length loc = D p"
      "\<forall>d<D p. loc ! d = (if d < G p then xs ! d div grid_size_' p ! d else xs ! d)"
    by blast
  have owr: "\<forall>d<G p. 0 \<le> owner ! d \<and> owner ! d < grid_size_' p ! d"
    using ow(3) g by simp
  have gl: "\<forall>d<G p. 0 \<le> global_size_' p ! d \<and>
                 global_size_' p ! d + grid_size_' p ! d \<le> INT_MAX"
  proof (intro allI impI)
    fix d assume d: "d < G p"
    with GD range have "0 \<le> xs ! d \<and> xs ! d < global_size_' p ! d" by simp
    with d grid show "0 \<le> global_size_' p ! d \<and>
                 global_size_' p ! d + grid_size_' p ! d \<le> INT_MAX" by simp
  qed
  from local_size_result [OF wf ow(2) g owr gl] obtain sizes
    where sz: "local_size p owner = Inr sizes" "length sizes = D p"
      "\<forall>d<D p. sizes ! d =
                (if d < G p
                 then (global_size_' p ! d + grid_size_' p ! d - owner ! d - 1) div grid_size_' p ! d
                 else global_size_' p ! d)"
    by blast
  have "\<forall>d<D p. loc ! d < sizes ! d"
  proof (intro allI impI)
    fix d assume d: "d < D p"
    with range have x: "0 \<le> xs ! d" "xs ! d < global_size_' p ! d" by simp_all
    show "loc ! d < sizes ! d"
    proof (cases "d < G p")
      case True
      with g have "0 < grid_size_' p ! d" by simp
      from cyclic_local_bound [OF x this] True d lo(3) sz(3) ow(3) show ?thesis by simp
    next
      case False
      with d lo(3) sz(3) x show ?thesis by simp
    qed
  qed
  with ow lo sz owr show ?thesis by blast
qed

text \<open>
  Ten by three elements, dealt cyclically over four processors along the first
  dimension: the element \<open>(7, 2)\<close> belongs to processor 3, where it is the element
  \<open>(1, 2)\<close> of two by three.
\<close>

theorem cyclic_maps_consistent_witness:
  "wf_partitioning \<lparr>D = 2, G = 1, global_size_' = [10, 3], grid_size_' = [4]\<rparr> \<and>
   length [7, 2 :: int] = D \<lparr>D = 2, G = 1, global_size_' = [10, 3], grid_size_' = [4]\<rparr> \<and>
   list_all (\<lambda>d. 1 \<le> [4 :: int] ! d \<and> [10, 3] ! d + [4] ! d \<le> INT_MAX) [0..<1] \<and>
   list_all (\<lambda>d. 0 \<le> [7, 2 :: int] ! d \<and> [7, 2 :: int] ! d < [10, 3] ! d) [0..<2] \<and>
   grid_owner \<lparr>D = 2, G = 1, global_size_' = [10, 3], grid_size_' = [4]\<rparr> [7, 2] = Inr [3] \<and>
   global_to_local \<lparr>D = 2, G = 1, global_size_' = [10, 3], grid_size_' = [4]\<rparr> [7, 2] = Inr [1, 2] \<and>
   local_size \<lparr>D = 2, G = 1, global_size_' = [10, 3], grid_size_' = [4]\<rparr> [3] = Inr [2, 3] \<and>
   (\<exists>owner loc sizes.
      grid_owner \<lparr>D = 2, G = 1, global_size_' = [10, 3], grid_size_' = [4]\<rparr> [7, 2] = Inr owner \<and>
      global_to_local \<lparr>D = 2, G = 1, global_size_' = [10, 3], grid_size_' = [4]\<rparr> [7, 2] = Inr loc \<and>
      local_size \<lparr>D = 2, G = 1, global_size_' = [10, 3], grid_size_' = [4]\<rparr> owner = Inr sizes \<and>
      list_all (\<lambda>d. 0 \<le> owner ! d \<and> owner ! d < [4] ! d) [0..<1] \<and>
      list_all (\<lambda>d. loc ! d < sizes ! d) [0..<2])"
proof -
  let ?p = "\<lparr>D = 2, G = 1, global_size_' = [10, 3], grid_size_' = [4]\<rparr>"
  have wf: "wf_partitioning ?p" by (simp add: wf_partitioning_def)
  have len: "length [7, 2 :: int] = D ?p" by simp
  have grid: "\<forall>d<G ?p. 1 \<le> grid_size_' ?p ! d \<and> global_size_' ?p ! d + grid_size_' ?p ! d \<le> INT_MAX"
    by (simp add: INT_MAX_def)
  have range: "\<forall>d<D ?p. 0 \<le> [7, 2 :: int] ! d \<and> [7, 2] ! d < global_size_' ?p ! d"
    by (simp add: less_Suc_eq numeral_2_eq_2)
  have ev: "grid_owner ?p [7, 2] = Inr [3]" "global_to_local ?p [7, 2] = Inr [1, 2]"
    "local_size ?p [3] = Inr [2, 3]"
    by (simp_all add: grid_owner_def global_to_local_def local_size_def at_def set_at_def
        c_add_def c_sub_def c_div_def c_mod_def in_int_def INT_MIN_def INT_MAX_def
        signed_divide_int_def signed_modulo_int_def upt_rec numeral_2_eq_2)
  from cyclic_maps_consistent [OF wf len grid range] obtain owner loc sizes where
    r: "grid_owner ?p [7, 2] = Inr owner" "global_to_local ?p [7, 2] = Inr loc"
      "local_size ?p owner = Inr sizes"
      "\<forall>d<G ?p. 0 \<le> owner ! d \<and> owner ! d < grid_size_' ?p ! d"
      "\<forall>d<D ?p. loc ! d < sizes ! d"
    by blast
  from r(4) have o: "list_all (\<lambda>d. 0 \<le> owner ! d \<and> owner ! d < [4] ! d) [0..<1]"
    by (simp add: list_all_iff)
  from r(5) have l: "list_all (\<lambda>d. loc ! d < sizes ! d) [0..<2]"
    by (simp add: list_all_iff)
  from r(1-3) o l have "\<exists>owner loc sizes.
      grid_owner ?p [7, 2] = Inr owner \<and> global_to_local ?p [7, 2] = Inr loc \<and>
      local_size ?p owner = Inr sizes \<and>
      list_all (\<lambda>d. 0 \<le> owner ! d \<and> owner ! d < [4] ! d) [0..<1] \<and>
      list_all (\<lambda>d. loc ! d < sizes ! d) [0..<2]"
    by blast
  moreover have "list_all (\<lambda>d. 1 \<le> [4 :: int] ! d \<and> [10, 3] ! d + [4] ! d \<le> INT_MAX) [0..<1]"
    by (simp add: INT_MAX_def)
  moreover have "list_all (\<lambda>d. 0 \<le> [7, 2 :: int] ! d \<and> [7, 2 :: int] ! d < [10, 3] ! d) [0..<2]"
    by (simp add: upt_rec)
  ultimately show ?thesis using wf len ev by blast
qed

text \<open>
  Against C10 as it is stated.  With \<open>INT_MAX\<close> elements on a single processor, the
  index 0 is in range, its owner is 0 and its local index is 0, but \<open>local_size\<close> of
  the owner first adds \<open>global_size[0] + grid_size[0]\<close>, which overflows.  With a grid
  size of 0, \<open>grid_owner\<close> divides by zero.
\<close>

theorem cyclic_maps_consistent_counterexample:
  "grid_owner \<lparr>D = 1, G = 1, global_size_' = [2147483647], grid_size_' = [1]\<rparr> [0] = Inr [0] \<and>
   global_to_local \<lparr>D = 1, G = 1, global_size_' = [2147483647], grid_size_' = [1]\<rparr> [0] = Inr [0] \<and>
   local_size \<lparr>D = 1, G = 1, global_size_' = [2147483647], grid_size_' = [1]\<rparr> [0] = Inl Overflow \<and>
   grid_owner \<lparr>D = 1, G = 1, global_size_' = [10], grid_size_' = [0]\<rparr> [3] = Inl DivByZero"
  by (simp add: grid_owner_def global_to_local_def local_size_def at_def set_at_def
        c_add_def c_sub_def c_div_def c_mod_def in_int_def INT_MIN_def INT_MAX_def
        signed_divide_int_def signed_modulo_int_def)

end
